theory Spec2Isabelle
  imports Main
begin

section \<open>Values, dictionaries and rows\<close>

text \<open>
  The exporter (\<^verbatim>\<open>export_graph\<close> in \<^verbatim>\<open>main.py\<close>) reads two result sets from the
  graph server, turns every row into a Python \<^verbatim>\<open>dict\<close> and hands the two lists of
  dicts to the tabular writer. Property values are scalars that the exporter only
  carries around and never inspects; numbers are the integers here, and a double
  would be one more constructor that no definition below looks at.
\<close>

datatype pyval = PNone | PBool bool | PInt int | PStr string

text \<open>
  A Python \<^verbatim>\<open>dict\<close> keeps its keys in insertion order, so it is an association list;
  a well-formed one has pairwise distinct keys.
\<close>

type_synonym pydict = "(string \<times> pyval) list"

text \<open>
  A node row is \<^verbatim>\<open>(ID(n), labels(n), properties(n))\<close>, an edge row is
  \<^verbatim>\<open>(ID(e), TYPE(e), ID(a), ID(b), properties(e))\<close>. The label sequence and the
  property mapping may be \<^verbatim>\<open>None\<close>; the code tests both for truthiness.
\<close>

type_synonym node_row = "int \<times> string list option \<times> pydict option"
type_synonym edge_row = "int \<times> string \<times> int \<times> int \<times> pydict option"

datatype error =
  ConnectionError string
  | QueryError string
  | IOError string
  | IndexError
  | TypeError
  | UnicodeEncodeError
  | EmptyDataError
  | FileNotFoundError

section \<open>The Python operations the loop bodies use\<close>

text \<open>Truthiness of an optional sequence or mapping: \<^verbatim>\<open>None\<close> and the empty one are falsy.\<close>

definition truthy :: "'a list option \<Rightarrow> bool" where
  "truthy x = (case x of None \<Rightarrow> False | Some [] \<Rightarrow> False | Some (_ # _) \<Rightarrow> True)"

text \<open>\<^verbatim>\<open>x or y\<close> is \<^verbatim>\<open>x\<close> when \<^verbatim>\<open>x\<close> is truthy and \<^verbatim>\<open>y\<close> otherwise.\<close>

definition py_or :: "'a list option \<Rightarrow> 'a list option \<Rightarrow> 'a list option" where
  "py_or x y = (if truthy x then x else y)"

text \<open>\<^verbatim>\<open>xs[0]\<close>: not subscriptable on \<^verbatim>\<open>None\<close>, out of range on the empty list.\<close>

definition getitem0 :: "'a list option \<Rightarrow> error + 'a" where
  "getitem0 x = (case x of None \<Rightarrow> Inl TypeError | Some [] \<Rightarrow> Inl IndexError | Some (a # _) \<Rightarrow> Inr a)"

text \<open>
  \<^verbatim>\<open>d[k] = v\<close>: an existing key keeps its position and takes the new value, a new key
  goes to the end.
\<close>

fun dict_setitem :: "('k \<times> 'v) list \<Rightarrow> 'k \<Rightarrow> 'v \<Rightarrow> ('k \<times> 'v) list" where
  "dict_setitem [] k v = [(k, v)]"
| "dict_setitem ((k', v') # d) k v =
     (if k' = k then (k, v) # d else (k', v') # dict_setitem d k v)"

text \<open>
  \<^verbatim>\<open>d.update(other)\<close> stores the items of \<^verbatim>\<open>other\<close> one by one, in their order; on
  \<^verbatim>\<open>None\<close> it raises \<^verbatim>\<open>TypeError\<close>.
\<close>

fun dict_update_items :: "('k \<times> 'v) list \<Rightarrow> ('k \<times> 'v) list \<Rightarrow> ('k \<times> 'v) list" where
  "dict_update_items d [] = d"
| "dict_update_items d ((k, v) # kvs) = dict_update_items (dict_setitem d k v) kvs"

definition dict_update :: "('k \<times> 'v) list \<Rightarrow> ('k \<times> 'v) list option \<Rightarrow> error + ('k \<times> 'v) list" where
  "dict_update d other = (case other of None \<Rightarrow> Inl TypeError | Some kvs \<Rightarrow> Inr (dict_update_items d kvs))"

section \<open>Flattening one row\<close>

text \<open>
  The body of the node loop:
  \<^verbatim>\<open>props = record[2] or {}\<close>,
  \<^verbatim>\<open>node = {"id": node_id, "label": labels[0] if labels else ""}\<close>,
  \<^verbatim>\<open>node.update(props)\<close>.
\<close>

fun flatten_node :: "node_row \<Rightarrow> error + pydict" where
  "flatten_node (node_id, labels, p) =
     (let props = py_or p (Some [])
      in (case (if truthy labels then getitem0 labels else Inr '''') of
            Inl e \<Rightarrow> Inl e
          | Inr label \<Rightarrow> dict_update [(''id'', PInt node_id), (''label'', PStr label)] props))"

text \<open>
  The body of the edge loop:
  \<^verbatim>\<open>props = record[4] or {}\<close>,
  \<^verbatim>\<open>edge = {"id": edge_id, "type": edge_type, "from_id": from_id, "to_id": to_id}\<close>,
  \<^verbatim>\<open>edge.update(props)\<close>.
\<close>

fun flatten_edge :: "edge_row \<Rightarrow> error + pydict" where
  "flatten_edge (edge_id, edge_type, from_id, to_id, p) =
     (let props = py_or p (Some [])
      in dict_update
           [(''id'', PInt edge_id), (''type'', PStr edge_type),
            (''from_id'', PInt from_id), (''to_id'', PInt to_id)] props)"

text \<open>Reading a field of a flattened record; nothing is read from a failed flattening.\<close>

definition field :: "error + pydict \<Rightarrow> string \<Rightarrow> pyval option" where
  "field r k = (case r of Inl _ \<Rightarrow> None | Inr d \<Rightarrow> map_of d k)"

section \<open>The two loops\<close>

text \<open>
  \<^verbatim>\<open>for record in result_set: ...; nodes.append(node)\<close>: the accumulator is the list
  built so far, and an exception in the body leaves the loop.
\<close>

fun node_loop :: "node_row list \<Rightarrow> pydict list \<Rightarrow> error + pydict list" where
  "node_loop [] nodes = Inr nodes"
| "node_loop (r # result_set) nodes =
     (case flatten_node r of
        Inl e \<Rightarrow> Inl e
      | Inr node \<Rightarrow> node_loop result_set (nodes @ [node]))"

fun edge_loop :: "edge_row list \<Rightarrow> pydict list \<Rightarrow> error + pydict list" where
  "edge_loop [] edges = Inr edges"
| "edge_loop (r # result_set) edges =
     (case flatten_edge r of
        Inl e \<Rightarrow> Inl e
      | Inr edge \<Rightarrow> edge_loop result_set (edges @ [edge]))"

section \<open>The tabular writer\<close>

text \<open>The elements of a list in the order of their first occurrence.\<close>

fun first_seen :: "'a list \<Rightarrow> 'a list" where
  "first_seen [] = []"
| "first_seen (x # xs) = x # first_seen (filter (\<lambda>y. y \<noteq> x) xs)"

text \<open>A table: the header and, per record, one cell per column; \<open>None\<close> is a missing cell.\<close>

record table =
  columns :: "string list"
  rows :: "pyval option list list"

text \<open>
  Modelled from the spec: the tabular writer, \<^verbatim>\<open>pd.DataFrame(records)\<close> followed by
  \<^verbatim>\<open>to_csv(path, index=False)\<close>, is the pandas library and not part of the sources.
  Section 4.4 gives its contract: the column set of one write is the union of the keys
  of all its records, a record without a key has an empty cell in that column, and an
  empty sequence of records still gives a file. Section 6 leaves the header either
  sorted or in insertion order; the model takes insertion order (the keys in the order
  of their first appearance over the records), as pandas does for a list of dicts. The
  file is kept as the table it holds; its rendering as text is not modelled.
\<close>

definition DataFrame :: "pydict list \<Rightarrow> table" where
  "DataFrame records =
     (let cols = first_seen (concat (map (map fst) records))
      in \<lparr>columns = cols, rows = map (\<lambda>d. map (map_of d) cols) records\<rparr>)"

section \<open>The outside world and the state of one run\<close>

text \<open>
  What the run does to the outside: the calls it makes, in order, and the files it
  leaves in the working directory.
\<close>

datatype event =
  Connect string int
  | SelectGraph string
  | RoQuery string string
  | ToCsv string
  | Print string

record state =
  files :: "string \<rightharpoonup> table"
  trace :: "event list"

text \<open>
  What the outside answers: whether \<^verbatim>\<open>FalkorDB(host=host, port=port)\<close> raises, what
  the two read-only queries on the selected graph return or raise, whether a
  destination can be written, and whether the standard output takes a message
  (\<^verbatim>\<open>print\<close> raises \<^verbatim>\<open>UnicodeEncodeError\<close> when the encoding of the output has no
  check mark, and \<^verbatim>\<open>OSError\<close> when the output cannot be written).
\<close>

record world =
  connect :: "string \<Rightarrow> int \<Rightarrow> error option"
  node_rows :: "string \<Rightarrow> int \<Rightarrow> string \<Rightarrow> error + node_row list"
  edge_rows :: "string \<Rightarrow> int \<Rightarrow> string \<Rightarrow> error + edge_row list"
  io_error :: "string \<Rightarrow> error option"
  print_error :: "string \<Rightarrow> error option"

definition log_event :: "event \<Rightarrow> state \<Rightarrow> state" where
  "log_event ev s = s\<lparr>trace := trace s @ [ev]\<rparr>"

text \<open>
  Modelled from the spec: \<^verbatim>\<open>to_csv\<close> of pandas (see above). A destination that
  cannot be written raises and leaves the files as they were; otherwise the file
  holds the table.
\<close>

definition to_csv :: "world \<Rightarrow> table \<Rightarrow> string \<Rightarrow> state \<Rightarrow> (error + unit) \<times> state" where
  "to_csv w df path s =
     (let s' = log_event (ToCsv path) s
      in (case io_error w path of
            Some e \<Rightarrow> (Inl e, s')
          | None \<Rightarrow> (Inr (), s'\<lparr>files := (files s')(path \<mapsto> df)\<rparr>)))"

text \<open>
  \<^verbatim>\<open>print(message)\<close>: the message goes to the standard output, or the call raises
  what the output raises.
\<close>

definition py_print :: "world \<Rightarrow> string \<Rightarrow> state \<Rightarrow> (error + unit) \<times> state" where
  "py_print w message s =
     (let s' = log_event (Print message) s
      in (case print_error w message of
            Some e \<Rightarrow> (Inl e, s')
          | None \<Rightarrow> (Inr (), s')))"


section \<open>The export\<close>

definition node_query :: string where
  "node_query = ''MATCH (n) RETURN ID(n), labels(n), properties(n)''"

definition edge_query :: string where
  "edge_query = ''MATCH (a)-[e]->(b) RETURN ID(e), TYPE(e), ID(a), ID(b), properties(e)''"

text \<open>The check mark that starts both messages, in UTF-8.\<close>

definition check_mark :: string where
  "check_mark = [CHR 0xE2, CHR 0x9C, CHR 0x85]"

text \<open>The two messages.\<close>

definition nodes_message :: string where
  "nodes_message = check_mark @ '' Exported nodes to nodes.csv''"

definition edges_message :: string where
  "edges_message = check_mark @ '' Exported edges to edges.csv''"

text \<open>The part of \<^verbatim>\<open>export_graph\<close> under \<^verbatim>\<open># Export Nodes\<close>.\<close>

definition export_nodes :: "world \<Rightarrow> string \<Rightarrow> string \<Rightarrow> int \<Rightarrow> state \<Rightarrow> (error + unit) \<times> state" where
  "export_nodes w graph_name host port s =
     (let s1 = log_event (RoQuery graph_name node_query) s
      in (case node_rows w host port graph_name of
            Inl e \<Rightarrow> (Inl e, s1)
          | Inr result_set \<Rightarrow>
              (case node_loop result_set [] of
                 Inl e \<Rightarrow> (Inl e, s1)
               | Inr nodes \<Rightarrow>
                   (case to_csv w (DataFrame nodes) ''nodes.csv'' s1 of
                      (Inl e, s2) \<Rightarrow> (Inl e, s2)
                    | (Inr u, s2) \<Rightarrow> py_print w nodes_message s2))))"

text \<open>The part of \<^verbatim>\<open>export_graph\<close> under \<^verbatim>\<open># Export Edges\<close>.\<close>

definition export_edges :: "world \<Rightarrow> string \<Rightarrow> string \<Rightarrow> int \<Rightarrow> state \<Rightarrow> (error + unit) \<times> state" where
  "export_edges w graph_name host port s =
     (let s1 = log_event (RoQuery graph_name edge_query) s
      in (case edge_rows w host port graph_name of
            Inl e \<Rightarrow> (Inl e, s1)
          | Inr result_set \<Rightarrow>
              (case edge_loop result_set [] of
                 Inl e \<Rightarrow> (Inl e, s1)
               | Inr edges \<Rightarrow>
                   (case to_csv w (DataFrame edges) ''edges.csv'' s1 of
                      (Inl e, s2) \<Rightarrow> (Inl e, s2)
                    | (Inr u, s2) \<Rightarrow> py_print w edges_message s2))))"

text \<open>
  \<^verbatim>\<open>export_graph(graph_name, host, port)\<close>: connect, select the graph, export the
  nodes, then the edges. An exception ends the run where it is raised.
\<close>

definition export_graph :: "world \<Rightarrow> string \<Rightarrow> string \<Rightarrow> int \<Rightarrow> state \<Rightarrow> (error + unit) \<times> state" where
  "export_graph w graph_name host port s =
     (let s1 = log_event (Connect host port) s
      in (case connect w host port of
            Some e \<Rightarrow> (Inl e, s1)
          | None \<Rightarrow>
              (let s2 = log_event (SelectGraph graph_name) s1
               in (case export_nodes w graph_name host port s2 of
                     (Inl e, s3) \<Rightarrow> (Inl e, s3)
                   | (Inr u, s3) \<Rightarrow> export_edges w graph_name host port s3))))"

text \<open>The keys of the property mapping of a row, in the mapping's order; none when it is \<^verbatim>\<open>None\<close>.\<close>

definition prop_keys :: "pydict option \<Rightarrow> string list" where
  "prop_keys p = (case p of None \<Rightarrow> [] | Some d \<Rightarrow> map fst d)"

fun node_prop_keys :: "node_row \<Rightarrow> string list" where
  "node_prop_keys (node_id, labels, p) = prop_keys p"

fun edge_prop_keys :: "edge_row \<Rightarrow> string list" where
  "edge_prop_keys (edge_id, edge_type, from_id, to_id, p) = prop_keys p"

section \<open>The scenario of the specification\<close>

text \<open>
  The graph of section 8 and of the tests: Alice and Bob (\<^verbatim>\<open>Person\<close>), TechCorp
  (\<^verbatim>\<open>Company\<close>), Alice works for TechCorp and knows Bob. The server listens on
  \<^verbatim>\<open>localhost:6379\<close> only, any other graph name gives empty result sets, the
  working directory is writable and the standard output takes every message.
\<close>

definition scenario_nodes :: "node_row list" where
  "scenario_nodes =
     [(0, Some [''Person''], Some [(''name'', PStr ''Alice''), (''age'', PInt 30)]),
      (1, Some [''Person''], Some [(''name'', PStr ''Bob''), (''age'', PInt 25)]),
      (2, Some [''Company''], Some [(''name'', PStr ''TechCorp''), (''founded'', PInt 2010)])]"

definition scenario_edges :: "edge_row list" where
  "scenario_edges =
     [(0, ''WORKS_FOR'', 0, 2, Some [(''since'', PInt 2020)]),
      (1, ''KNOWS'', 0, 1, Some [(''since'', PInt 2015)])]"

definition scenario :: world where
  "scenario =
     \<lparr>connect = (\<lambda>host port. if host = ''localhost'' \<and> port = 6379 then None
                              else Some (ConnectionError ''unreachable'')),
      node_rows = (\<lambda>host port graph_name.
                     Inr (if graph_name = ''test_graph'' then scenario_nodes else [])),
      edge_rows = (\<lambda>host port graph_name.
                     Inr (if graph_name = ''test_graph'' then scenario_edges else [])),
      io_error = (\<lambda>path. None),
      print_error = (\<lambda>message. None)\<rparr>"

text \<open>The same, on a standard output that encodes ASCII only.\<close>

definition ascii_stdout :: world where
  "ascii_stdout =
     scenario\<lparr>print_error :=
       (\<lambda>message. if list_all (\<lambda>c. of_char c < (128 :: nat)) message then None
                   else Some UnicodeEncodeError)\<rparr>"

text \<open>Before the run: no file, nothing done.\<close>

definition start :: state where
  "start = \<lparr>files = Map.empty, trace = []\<rparr>"

section \<open>Dictionaries: lookup and key order after an update\<close>

lemma map_of_dict_setitem: "map_of (dict_setitem d k v) = (map_of d)(k \<mapsto> v)"
  by (induction d) (auto simp: fun_eq_iff)

lemma keys_dict_setitem:
  "map fst (dict_setitem d k v) = (if k \<in> set (map fst d) then map fst d else map fst d @ [k])"
  by (induction d) (force simp: image_iff)+

lemma distinct_dict_setitem: "distinct (map fst d) \<Longrightarrow> distinct (map fst (dict_setitem d k v))"
  by (simp add: keys_dict_setitem)

lemma map_of_dict_update_items:
  "distinct (map fst kvs) \<Longrightarrow> map_of (dict_update_items d kvs) = map_of d ++ map_of kvs"
proof (induction kvs arbitrary: d)
  case Nil
  then show ?case by simp
next
  case (Cons kv kvs)
  obtain k v where kv: "kv = (k, v)" by (cases kv)
  from Cons.prems kv have k: "k \<notin> fst ` set kvs" and dist: "distinct (map fst kvs)" by auto
  have "map_of (dict_update_items d (kv # kvs)) = map_of (dict_setitem d k v) ++ map_of kvs"
    using Cons.IH [OF dist, of "dict_setitem d k v"] kv by simp
  also have "\<dots> = (map_of d)(k \<mapsto> v) ++ map_of kvs"
    by (simp only: map_of_dict_setitem)
  also have "\<dots> = map_of d ++ map_of (kv # kvs)"
    using k kv by (simp add: map_add_upd_left dom_map_of_conv_image_fst)
  finally show ?case .
qed

lemma filter_neq_first_seen:
  "filter P (first_seen xs) = first_seen (filter P xs)"
proof (induction xs rule: first_seen.induct)
  case 1
  then show ?case by simp
next
  case (2 x xs)
  have comm: "filter (\<lambda>y. y \<noteq> x) (filter P xs) = filter P (filter (\<lambda>y. y \<noteq> x) xs)"
    by (simp add: conj_commute)
  show ?case
  proof (cases "P x")
    case True
    with 2 comm show ?thesis by simp
  next
    case False
    then have "filter P xs = filter P (filter (\<lambda>y. y \<noteq> x) xs)"
      by (auto intro: filter_cong)
    with 2 False show ?thesis by simp
  qed
qed

lemma set_first_seen: "set (first_seen xs) = set xs"
  by (induction xs rule: first_seen.induct) auto

lemma distinct_first_seen: "distinct (first_seen xs)"
  by (induction xs rule: first_seen.induct) (auto simp: set_first_seen)

lemma first_seen_distinct: "distinct xs \<Longrightarrow> first_seen xs = xs"
proof (induction xs)
  case Nil
  then show ?case by simp
next
  case (Cons a xs)
  then have "filter (\<lambda>y. y \<noteq> a) xs = xs"
    by (auto simp: filter_id_conv)
  with Cons show ?case by simp
qed

lemma first_seen_append:
  "first_seen (xs @ ys) = first_seen xs @ filter (\<lambda>y. y \<notin> set xs) (first_seen ys)"
proof (induction xs arbitrary: ys rule: first_seen.induct)
  case 1
  then show ?case by simp
next
  case (2 x xs)
  have "first_seen ((x # xs) @ ys) = x # first_seen (filter (\<lambda>y. y \<noteq> x) xs @ filter (\<lambda>y. y \<noteq> x) ys)"
    by simp
  also have "\<dots> = x # first_seen (filter (\<lambda>y. y \<noteq> x) xs)
       @ filter (\<lambda>y. y \<notin> set (filter (\<lambda>y. y \<noteq> x) xs)) (first_seen (filter (\<lambda>y. y \<noteq> x) ys))"
    using 2 by simp
  also have "filter (\<lambda>y. y \<notin> set (filter (\<lambda>y. y \<noteq> x) xs)) (first_seen (filter (\<lambda>y. y \<noteq> x) ys))
      = filter (\<lambda>y. y \<notin> set (x # xs)) (first_seen ys)"
    by (auto simp: filter_neq_first_seen [symmetric] intro: filter_cong)
  finally show ?case by simp
qed

lemma keys_dict_update_items:
  "map fst (dict_update_items d kvs) =
     map fst d @ filter (\<lambda>k. k \<notin> set (map fst d)) (first_seen (map fst kvs))"
proof (induction kvs arbitrary: d)
  case Nil
  then show ?case by simp
next
  case (Cons kv kvs)
  obtain k v where kv: "kv = (k, v)" by (cases kv)
  show ?case
  proof (cases "k \<in> set (map fst d)")
    case True
    have "filter (\<lambda>k. k \<notin> set (map fst d)) (filter (\<lambda>y. y \<noteq> k) (first_seen (map fst kvs)))
        = filter (\<lambda>k. k \<notin> set (map fst d)) (first_seen (map fst kvs))"
      using True by (auto intro: filter_cong)
    then show ?thesis
      using True kv Cons.IH [of "dict_setitem d k v"]
      by (simp add: keys_dict_setitem filter_neq_first_seen [symmetric])
  next
    case False
    let ?F = "first_seen (map fst kvs)"
    have step: "map fst (dict_update_items d (kv # kvs)) =
        (map fst d @ [k]) @ filter (\<lambda>x. x \<notin> set (map fst d @ [k])) ?F"
      using False kv Cons.IH [of "dict_setitem d k v"] by (simp add: keys_dict_setitem)
    have fs: "first_seen (map fst (kv # kvs)) = k # filter (\<lambda>y. y \<noteq> k) ?F"
      using kv by (simp add: filter_neq_first_seen)
    have h: "filter (\<lambda>x. x \<notin> set (map fst d)) (k # filter (\<lambda>y. y \<noteq> k) ?F) =
        k # filter (\<lambda>x. x \<notin> set (map fst d @ [k])) ?F"
      using False by (auto intro: filter_cong)
    have "map fst (dict_update_items d (kv # kvs)) =
        map fst d @ (k # filter (\<lambda>x. x \<notin> set (map fst d @ [k])) ?F)"
      using step by simp
    also have "\<dots> = map fst d @ filter (\<lambda>x. x \<notin> set (map fst d)) (first_seen (map fst (kv # kvs)))"
      by (simp only: h fs)
    finally show ?thesis .
  qed
qed

lemma map_of_dict_update_items_other:
  "k \<notin> fst ` set kvs \<Longrightarrow> map_of (dict_update_items d kvs) k = map_of d k"
proof (induction kvs arbitrary: d)
  case Nil
  then show ?case by simp
next
  case (Cons kv kvs)
  obtain k' v' where kv: "kv = (k', v')" by (cases kv)
  with Cons.prems have "k \<noteq> k'" and "k \<notin> fst ` set kvs" by auto
  with Cons.IH [of "dict_setitem d k' v'"] kv show ?case
    by (simp add: map_of_dict_setitem)
qed

section \<open>What one row is flattened to\<close>

lemma props_or_empty:
  "py_or p (Some []) = Some (case p of None \<Rightarrow> [] | Some d \<Rightarrow> d)"
  by (cases p; cases "the p") (simp_all add: py_or_def truthy_def)

lemma first_label:
  "(if truthy labels then getitem0 labels else Inr '''') =
     Inr (case labels of None \<Rightarrow> '''' | Some [] \<Rightarrow> '''' | Some (l # ls) \<Rightarrow> l)"
  by (cases labels; cases "the labels") (simp_all add: truthy_def getitem0_def)

lemma flatten_node_eq:
  "flatten_node (node_id, labels, p) =
     Inr (dict_update_items
            [(''id'', PInt node_id),
             (''label'', PStr (case labels of None \<Rightarrow> '''' | Some [] \<Rightarrow> '''' | Some (l # ls) \<Rightarrow> l))]
            (case p of None \<Rightarrow> [] | Some d \<Rightarrow> d))"
  by (simp only: flatten_node.simps props_or_empty first_label Let_def dict_update_def
        option.case sum.case)

lemma flatten_edge_eq:
  "flatten_edge (edge_id, edge_type, from_id, to_id, p) =
     Inr (dict_update_items
            [(''id'', PInt edge_id), (''type'', PStr edge_type),
             (''from_id'', PInt from_id), (''to_id'', PInt to_id)]
            (case p of None \<Rightarrow> [] | Some d \<Rightarrow> d))"
  by (simp only: flatten_edge.simps props_or_empty Let_def dict_update_def option.case)

declare flatten_node.simps [simp del] flatten_edge.simps [simp del]

lemma flatten_node_total: "\<exists>d. flatten_node r = Inr d"
  by (cases r) (simp only: flatten_node_eq, blast)

lemma flatten_edge_total: "\<exists>d. flatten_edge r = Inr d"
  by (cases r) (simp only: flatten_edge_eq, blast)

lemma update_None_raises: "dict_update d None = Inl TypeError"
  by (simp add: dict_update_def)

text \<open>
  Claim C5: a node or edge row whose property mapping is \<^verbatim>\<open>None\<close> is flattened as if
  the mapping were empty: the flattening returns a record (no exception), and the
  record holds the fixed keys only.
\<close>

theorem null_properties_as_empty:
  "flatten_node (node_id, labels, None) =
     Inr [(''id'', PInt node_id),
          (''label'', PStr (case labels of None \<Rightarrow> '''' | Some [] \<Rightarrow> '''' | Some (l # ls) \<Rightarrow> l))]
   \<and> flatten_node (node_id, labels, None) = flatten_node (node_id, labels, Some [])
   \<and> flatten_edge (edge_id, edge_type, from_id, to_id, None) =
     Inr [(''id'', PInt edge_id), (''type'', PStr edge_type),
          (''from_id'', PInt from_id), (''to_id'', PInt to_id)]
   \<and> flatten_edge (edge_id, edge_type, from_id, to_id, None) =
     flatten_edge (edge_id, edge_type, from_id, to_id, Some [])"
  by (simp add: flatten_node_eq flatten_edge_eq)

text \<open>
  As stated, claim C1 fails on a node that has a property named \<^verbatim>\<open>label\<close>: the
  update overwrites the derived label.
\<close>

theorem label_overwritten_counterexample:
  "field (flatten_node (1, Some [''Person''], Some [(''label'', PStr ''X'')])) ''label''
     \<noteq> Some (PStr ''Person'')"
  by (simp add: flatten_node_eq field_def)

text \<open>
  Claim C1, amended: for every node row whose property mapping has no key
  \<^verbatim>\<open>label\<close>, the \<^verbatim>\<open>label\<close> field of the flattened record is the first element of
  the label sequence when that sequence is non-empty and the empty string when it is
  empty or \<^verbatim>\<open>None\<close>; and, whatever the properties are, the record is the same as for
  the first label alone, so that no further label reaches it.
\<close>

theorem label_is_first_label:
  "(''label'' \<notin> set (prop_keys p) \<longrightarrow>
      field (flatten_node (node_id, labels, p)) ''label'' =
        Some (PStr (case labels of None \<Rightarrow> '''' | Some [] \<Rightarrow> '''' | Some (l # ls) \<Rightarrow> l)))
   \<and> flatten_node (node_id, Some (l # ls), p) = flatten_node (node_id, Some [l], p)"
proof -
  have "field (flatten_node (node_id, labels, p)) ''label'' =
      Some (PStr (case labels of None \<Rightarrow> '''' | Some [] \<Rightarrow> '''' | Some (l # ls) \<Rightarrow> l))"
    if "''label'' \<notin> set (prop_keys p)"
  proof -
    from that have "''label'' \<notin> fst ` set (case p of None \<Rightarrow> [] | Some d \<Rightarrow> d)"
      by (cases p) (simp_all add: prop_keys_def)
    then show ?thesis
      by (simp add: flatten_node_eq field_def map_of_dict_update_items_other)
  qed
  moreover have "flatten_node (node_id, Some (l # ls), p) = flatten_node (node_id, Some [l], p)"
    by (simp add: flatten_node_eq)
  ultimately show ?thesis by blast
qed

theorem label_is_first_label_witness:
  "''label'' \<notin> set (prop_keys (Some [(''name'', PStr ''Alice'')]))
   \<and> field (flatten_node (7, Some [''Person'', ''Employee''], Some [(''name'', PStr ''Alice'')])) ''label''
       = Some (PStr ''Person'')
   \<and> field (flatten_node (7, Some [], Some [(''name'', PStr ''Alice'')])) ''label'' = Some (PStr '''')
   \<and> flatten_node (7, Some [''Person'', ''Employee''], Some [(''name'', PStr ''Alice'')])
       = flatten_node (7, Some [''Person''], Some [(''name'', PStr ''Alice'')])
   \<and> flatten_node (7, Some [''Person'', ''Employee''], Some [(''label'', PStr ''X'')])
       = flatten_node (7, Some [''Person''], Some [(''label'', PStr ''X'')])"
proof -
  have h: "''label'' \<notin> set (prop_keys (Some [(''name'', PStr ''Alice'')]))"
    by (simp add: prop_keys_def)
  show ?thesis
    using h
      label_is_first_label [where p = "Some [(''name'', PStr ''Alice'')]" and node_id = 7
        and labels = "Some [''Person'', ''Employee'']" and l = "''Person''" and ls = "[''Employee'']"]
      label_is_first_label [where p = "Some [(''name'', PStr ''Alice'')]" and node_id = 7
        and labels = "Some []" and l = "''Person''" and ls = "[''Employee'']"]
      label_is_first_label [where p = "Some [(''label'', PStr ''X'')]" and node_id = 7
        and labels = "Some [''Person'']" and l = "''Person''" and ls = "[''Employee'']"]
    by simp
qed

text \<open>
  Claim C2: when the property mapping of a node or of an edge binds a key \<open>k\<close> to
  \<open>v\<close>, the flattened record holds \<open>v\<close> under \<open>k\<close>. This holds for every key, and
  so for the fixed keys \<^verbatim>\<open>id\<close>, \<^verbatim>\<open>label\<close>, \<^verbatim>\<open>type\<close>, \<^verbatim>\<open>from_id\<close> and
  \<^verbatim>\<open>to_id\<close>, whose seeded values are overwritten.
\<close>

theorem property_overwrites_fixed_key:
  assumes "distinct (map fst props)" and "map_of props k = Some v"
  shows "field (flatten_node (node_id, labels, Some props)) k = Some v
         \<and> field (flatten_edge (edge_id, edge_type, from_id, to_id, Some props)) k = Some v"
  using assms
  by (simp add: flatten_node_eq flatten_edge_eq field_def map_of_dict_update_items map_add_def)

theorem property_overwrites_fixed_key_witness:
  "distinct (map fst [(''id'', PStr ''n-1''), (''label'', PStr ''Boss'')])
   \<and> map_of [(''id'', PStr ''n-1''), (''label'', PStr ''Boss'')] ''id'' = Some (PStr ''n-1'')
   \<and> field (flatten_node (7, Some [''Person''], Some [(''id'', PStr ''n-1''), (''label'', PStr ''Boss'')])) ''id''
       = Some (PStr ''n-1'')
   \<and> field (flatten_edge (3, ''KNOWS'', 7, 8, Some [(''id'', PStr ''n-1''), (''label'', PStr ''Boss'')])) ''id''
       = Some (PStr ''n-1'')"
proof -
  have d: "distinct (map fst [(''id'', PStr ''n-1''), (''label'', PStr ''Boss'')])" by simp
  have m: "map_of [(''id'', PStr ''n-1''), (''label'', PStr ''Boss'')] ''id'' = Some (PStr ''n-1'')" by simp
  show ?thesis
    using d m property_overwrites_fixed_key [OF d m, of 7 "Some [''Person'']" 3 "''KNOWS''" 7 8]
    by blast
qed

text \<open>
  Claim C3: the record of an edge row \<^verbatim>\<open>(id, type, source, destination, properties)\<close>
  has the keys \<^verbatim>\<open>id\<close>, \<^verbatim>\<open>type\<close>, \<^verbatim>\<open>from_id\<close>, \<^verbatim>\<open>to_id\<close> first, in this
  order, followed by the property keys that are none of these four; read as a
  mapping, it is the four fixed keys bound to the first four components of the row,
  overridden by the property mapping.
\<close>

theorem edge_record_seeded_then_overlaid:
  assumes "distinct (map fst props)"
  shows "\<exists>d. flatten_edge (edge_id, edge_type, from_id, to_id, Some props) = Inr d
           \<and> map fst d = [''id'', ''type'', ''from_id'', ''to_id'']
               @ filter (\<lambda>k. k \<notin> set [''id'', ''type'', ''from_id'', ''to_id'']) (map fst props)
           \<and> map_of d = [''id'' \<mapsto> PInt edge_id, ''type'' \<mapsto> PStr edge_type,
                          ''from_id'' \<mapsto> PInt from_id, ''to_id'' \<mapsto> PInt to_id] ++ map_of props"
proof -
  let ?seed = "[(''id'', PInt edge_id), (''type'', PStr edge_type),
                (''from_id'', PInt from_id), (''to_id'', PInt to_id)]"
  let ?d = "dict_update_items ?seed props"
  have 1: "flatten_edge (edge_id, edge_type, from_id, to_id, Some props) = Inr ?d"
    by (simp add: flatten_edge_eq)
  have 2: "map fst ?d = map fst ?seed @ filter (\<lambda>k. k \<notin> set (map fst ?seed)) (map fst props)"
    using assms by (simp only: keys_dict_update_items first_seen_distinct)
  have 3: "map_of ?d = map_of ?seed ++ map_of props"
    using assms by (rule map_of_dict_update_items)
  have 4: "map_of ?seed = [''id'' \<mapsto> PInt edge_id, ''type'' \<mapsto> PStr edge_type,
                          ''from_id'' \<mapsto> PInt from_id, ''to_id'' \<mapsto> PInt to_id]"
    by (simp add: fun_eq_iff)
  from 1 2 3 4 show ?thesis by simp
qed

theorem edge_record_seeded_then_overlaid_witness:
  "distinct (map fst [(''since'', PInt 2020), (''type'', PStr ''x'')])
   \<and> (\<exists>d. flatten_edge (3, ''KNOWS'', 7, 8, Some [(''since'', PInt 2020), (''type'', PStr ''x'')]) = Inr d
          \<and> map fst d = [''id'', ''type'', ''from_id'', ''to_id'', ''since'']
          \<and> map_of d ''id'' = Some (PInt 3)
          \<and> map_of d ''type'' = Some (PStr ''x'')
          \<and> map_of d ''from_id'' = Some (PInt 7)
          \<and> map_of d ''to_id'' = Some (PInt 8)
          \<and> map_of d ''since'' = Some (PInt 2020))"
proof -
  have h: "distinct (map fst [(''since'', PInt 2020), (''type'', PStr ''x'')])" by simp
  from edge_record_seeded_then_overlaid [OF h, of 3 "''KNOWS''" 7 8]
  obtain d where
    "flatten_edge (3, ''KNOWS'', 7, 8, Some [(''since'', PInt 2020), (''type'', PStr ''x'')]) = Inr d"
    "map fst d = [''id'', ''type'', ''from_id'', ''to_id'', ''since'']"
    "map_of d = [''id'' \<mapsto> PInt 3, ''type'' \<mapsto> PStr ''KNOWS'', ''from_id'' \<mapsto> PInt 7, ''to_id'' \<mapsto> PInt 8]
       ++ map_of [(''since'', PInt 2020), (''type'', PStr ''x'')]"
    by auto
  with h show ?thesis by simp
qed

section \<open>The loops keep the order of the result set\<close>

lemma node_loop_acc:
  "node_loop result_set nodes = Inr (nodes @ map (\<lambda>r. projr (flatten_node r)) result_set)"
proof (induction result_set arbitrary: nodes)
  case Nil
  then show ?case by simp
next
  case (Cons r result_set)
  obtain d where d: "flatten_node r = Inr d" using flatten_node_total by blast
  with Cons.IH [of "nodes @ [d]"] show ?case by simp
qed

lemma edge_loop_acc:
  "edge_loop result_set edges = Inr (edges @ map (\<lambda>r. projr (flatten_edge r)) result_set)"
proof (induction result_set arbitrary: edges)
  case Nil
  then show ?case by simp
next
  case (Cons r result_set)
  obtain d where d: "flatten_edge r = Inr d" using flatten_edge_total by blast
  with Cons.IH [of "edges @ [d]"] show ?case by simp
qed

lemma flatten_node_projr: "Inr (projr (flatten_node r)) = flatten_node r"
  using flatten_node_total [of r] by auto

lemma flatten_edge_projr: "Inr (projr (flatten_edge r)) = flatten_edge r"
  using flatten_edge_total [of r] by auto

text \<open>
  Claim C8: each loop returns one record per row of its result set, in the order of
  the rows: the record at position \<open>i\<close> is the flattening of the row at position \<open>i\<close>.
\<close>

theorem records_in_return_order:
  "(\<exists>nodes. node_loop node_result_set [] = Inr nodes
       \<and> length nodes = length node_result_set
       \<and> (\<forall>i<length node_result_set. flatten_node (node_result_set ! i) = Inr (nodes ! i)))
   \<and> (\<exists>edges. edge_loop edge_result_set [] = Inr edges
       \<and> length edges = length edge_result_set
       \<and> (\<forall>i<length edge_result_set. flatten_edge (edge_result_set ! i) = Inr (edges ! i)))"
  by (simp add: node_loop_acc edge_loop_acc flatten_node_projr flatten_edge_projr)

theorem records_in_return_order_witness:
  "\<exists>nodes edges.
      node_loop [(1, Some [''Person''], Some [(''name'', PStr ''Alice'')]), (2, Some [], None)] [] = Inr nodes
    \<and> nodes ! 0 = [(''id'', PInt 1), (''label'', PStr ''Person''), (''name'', PStr ''Alice'')]
    \<and> nodes ! 1 = [(''id'', PInt 2), (''label'', PStr '''')]
    \<and> edge_loop [(5, ''KNOWS'', 1, 2, None)] [] = Inr edges
    \<and> edges ! 0 = [(''id'', PInt 5), (''type'', PStr ''KNOWS''), (''from_id'', PInt 1), (''to_id'', PInt 2)]"
  using records_in_return_order
    [of "[(1, Some [''Person''], Some [(''name'', PStr ''Alice'')]), (2, Some [], None)]"
        "[(5, ''KNOWS'', 1, 2, None)]"]
  by (auto simp: flatten_node_eq flatten_edge_eq All_less_Suc)

section \<open>A run that meets no failure\<close>

lemma to_csv_ok:
  "io_error w path = None \<Longrightarrow>
     to_csv w df path s = (Inr (), s\<lparr>files := (files s)(path \<mapsto> df), trace := trace s @ [ToCsv path]\<rparr>)"
  by (simp add: to_csv_def log_event_def)

lemma py_print_files: "files (snd (py_print w message s)) = files s"
  by (simp add: py_print_def log_event_def Let_def split: option.splits)

lemma py_print_ok: "print_error w message = None \<Longrightarrow> fst (py_print w message s) = Inr ()"
  by (simp add: py_print_def)

lemma py_print_raises: "print_error w message = Some e \<Longrightarrow> fst (py_print w message s) = Inl e"
  by (simp add: py_print_def)

text \<open>
  Once the rows are there and the destination can be written, the file is written
  whatever becomes of the message; the part returns what \<^verbatim>\<open>print\<close> returns.
\<close>

lemma export_nodes_written:
  assumes "node_rows w host port graph_name = Inr ns" and "io_error w ''nodes.csv'' = None"
  shows "\<exists>r s'. export_nodes w graph_name host port s = (r, s')
           \<and> r = (case print_error w nodes_message of None \<Rightarrow> Inr () | Some e \<Rightarrow> Inl e)
           \<and> files s' = (files s)(''nodes.csv'' \<mapsto> DataFrame (map (\<lambda>r. projr (flatten_node r)) ns))"
  using assms
  by (simp add: export_nodes_def node_loop_acc to_csv_ok log_event_def py_print_def
        split: option.splits)

lemma export_edges_written:
  assumes "edge_rows w host port graph_name = Inr es" and "io_error w ''edges.csv'' = None"
  shows "\<exists>r s'. export_edges w graph_name host port s = (r, s')
           \<and> r = (case print_error w edges_message of None \<Rightarrow> Inr () | Some e \<Rightarrow> Inl e)
           \<and> files s' = (files s)(''edges.csv'' \<mapsto> DataFrame (map (\<lambda>r. projr (flatten_edge r)) es))"
  using assms
  by (simp add: export_edges_def edge_loop_acc to_csv_ok log_event_def py_print_def
        split: option.splits)

lemma export_graph_ok:
  assumes "connect w host port = None"
    and "node_rows w host port graph_name = Inr ns"
    and "edge_rows w host port graph_name = Inr es"
    and "io_error w ''nodes.csv'' = None"
    and "io_error w ''edges.csv'' = None"
    and "print_error w nodes_message = None"
    and "print_error w edges_message = None"
  shows "\<exists>s'. export_graph w graph_name host port s = (Inr (), s')
           \<and> files s' ''nodes.csv'' = Some (DataFrame (map (\<lambda>r. projr (flatten_node r)) ns))
           \<and> files s' ''edges.csv'' = Some (DataFrame (map (\<lambda>r. projr (flatten_edge r)) es))"
proof -
  let ?s2 = "log_event (SelectGraph graph_name) (log_event (Connect host port) s)"
  obtain s3 where n: "export_nodes w graph_name host port ?s2 = (Inr (), s3)"
    and f3: "files s3 = (files ?s2)(''nodes.csv'' \<mapsto> DataFrame (map (\<lambda>r. projr (flatten_node r)) ns))"
    using export_nodes_written [OF assms(2) assms(4), of ?s2] assms(6) by auto
  obtain s4 where e: "export_edges w graph_name host port s3 = (Inr (), s4)"
    and f4: "files s4 = (files s3)(''edges.csv'' \<mapsto> DataFrame (map (\<lambda>r. projr (flatten_edge r)) es))"
    using export_edges_written [OF assms(3) assms(5), of s3] assms(7) by auto
  have "export_graph w graph_name host port s = (Inr (), s4)"
    using assms(1) n e by (simp add: export_graph_def)
  moreover have "files s4 ''nodes.csv'' = Some (DataFrame (map (\<lambda>r. projr (flatten_node r)) ns))"
    using f3 f4 by simp
  moreover have "files s4 ''edges.csv'' = Some (DataFrame (map (\<lambda>r. projr (flatten_edge r)) es))"
    using f4 by simp
  ultimately show ?thesis by blast
qed

text \<open>
  When the first message cannot be printed, the run ends there: \<^verbatim>\<open>nodes.csv\<close> is
  written, the edge query is never made and \<^verbatim>\<open>edges.csv\<close> is left as it was.
\<close>

lemma print_error_after_nodes:
  assumes "connect w host port = None"
    and "node_rows w host port graph_name = Inr ns"
    and "io_error w ''nodes.csv'' = None"
    and "print_error w nodes_message = Some e"
  shows "\<exists>s'. export_graph w graph_name host port s = (Inl e, s')
           \<and> files s' ''nodes.csv'' = Some (DataFrame (map (\<lambda>r. projr (flatten_node r)) ns))
           \<and> files s' ''edges.csv'' = files s ''edges.csv''"
proof -
  let ?s2 = "log_event (SelectGraph graph_name) (log_event (Connect host port) s)"
  obtain s3 where n: "export_nodes w graph_name host port ?s2 = (Inl e, s3)"
    and f3: "files s3 = (files ?s2)(''nodes.csv'' \<mapsto> DataFrame (map (\<lambda>r. projr (flatten_node r)) ns))"
    using export_nodes_written [OF assms(2) assms(3), of ?s2] assms(4) by auto
  have "export_graph w graph_name host port s = (Inl e, s3)"
    using assms(1) n by (simp add: export_graph_def)
  moreover have "files s3 ''nodes.csv'' = Some (DataFrame (map (\<lambda>r. projr (flatten_node r)) ns))"
    using f3 by simp
  moreover have "files s3 ''edges.csv'' = files s ''edges.csv''"
    using f3 by (simp add: log_event_def)
  ultimately show ?thesis by blast
qed

text \<open>
  When only the last message cannot be printed, both files are written and the run
  still ends with the exception.
\<close>

lemma print_error_after_edges:
  assumes "connect w host port = None"
    and "node_rows w host port graph_name = Inr ns"
    and "edge_rows w host port graph_name = Inr es"
    and "io_error w ''nodes.csv'' = None"
    and "io_error w ''edges.csv'' = None"
    and "print_error w nodes_message = None"
    and "print_error w edges_message = Some e"
  shows "\<exists>s'. export_graph w graph_name host port s = (Inl e, s')
           \<and> files s' ''nodes.csv'' = Some (DataFrame (map (\<lambda>r. projr (flatten_node r)) ns))
           \<and> files s' ''edges.csv'' = Some (DataFrame (map (\<lambda>r. projr (flatten_edge r)) es))"
proof -
  let ?s2 = "log_event (SelectGraph graph_name) (log_event (Connect host port) s)"
  obtain s3 where n: "export_nodes w graph_name host port ?s2 = (Inr (), s3)"
    and f3: "files s3 = (files ?s2)(''nodes.csv'' \<mapsto> DataFrame (map (\<lambda>r. projr (flatten_node r)) ns))"
    using export_nodes_written [OF assms(2) assms(4), of ?s2] assms(6) by auto
  obtain s4 where e: "export_edges w graph_name host port s3 = (Inl e, s4)"
    and f4: "files s4 = (files s3)(''edges.csv'' \<mapsto> DataFrame (map (\<lambda>r. projr (flatten_edge r)) es))"
    using export_edges_written [OF assms(3) assms(5), of s3] assms(7) by auto
  have "export_graph w graph_name host port s = (Inl e, s4)"
    using assms(1) n e by (simp add: export_graph_def)
  moreover have "files s4 ''nodes.csv'' = Some (DataFrame (map (\<lambda>r. projr (flatten_node r)) ns))"
    using f3 f4 by simp
  moreover have "files s4 ''edges.csv'' = Some (DataFrame (map (\<lambda>r. projr (flatten_edge r)) es))"
    using f4 by simp
  ultimately show ?thesis by blast
qed

lemma rows_DataFrame: "rows (DataFrame ds) = map (\<lambda>d. map (map_of d) (columns (DataFrame ds))) ds"
  by (simp add: DataFrame_def Let_def)

lemma columns_DataFrame: "columns (DataFrame ds) = first_seen (concat (map (map fst) ds))"
  by (simp add: DataFrame_def Let_def)

lemma length_rows_DataFrame: "length (rows (DataFrame ds)) = length ds"
  by (simp add: rows_DataFrame)

text \<open>
  Claim C4: when the node query returns the rows \<open>ns\<close> and the edge query the rows
  \<open>es\<close> (one row per node and one per relationship of the graph), then, provided
  the connection is established, both queries return, both destinations can be
  written and both messages can be printed, the run ends normally, the table in
  \<^verbatim>\<open>nodes.csv\<close> has as many rows as \<open>ns\<close> and the table in \<^verbatim>\<open>edges.csv\<close> as many as
  \<open>es\<close>.
\<close>

theorem one_row_per_entity:
  assumes "connect w host port = None"
    and "node_rows w host port graph_name = Inr ns"
    and "edge_rows w host port graph_name = Inr es"
    and "io_error w ''nodes.csv'' = None"
    and "io_error w ''edges.csv'' = None"
    and "print_error w nodes_message = None"
    and "print_error w edges_message = None"
  shows "\<exists>s' tn te. export_graph w graph_name host port s = (Inr (), s')
           \<and> files s' ''nodes.csv'' = Some tn \<and> length (rows tn) = length ns
           \<and> files s' ''edges.csv'' = Some te \<and> length (rows te) = length es"
  using export_graph_ok [OF assms, of s] by (auto simp: length_rows_DataFrame)

text \<open>
  Claim C9: when the connector raises \<open>e\<close> for the endpoint, the run ends with this very
  \<open>e\<close>, it has made one connection attempt and nothing else (no second attempt, no
  query, no write), and the files are what they were: neither \<^verbatim>\<open>nodes.csv\<close> nor
  \<^verbatim>\<open>edges.csv\<close> is created.
\<close>

theorem connection_error_before_any_write:
  assumes "connect w host port = Some e"
  shows "\<exists>s'. export_graph w graph_name host port s = (Inl e, s')
           \<and> files s' = files s
           \<and> trace s' = trace s @ [Connect host port]"
  using assms by (simp add: export_graph_def log_event_def)

text \<open>
  The same holds when the connection only fails at the first query: the node query
  comes before the first write.
\<close>

lemma query_error_before_any_write:
  assumes "connect w host port = None" and "node_rows w host port graph_name = Inl e"
  shows "\<exists>s'. export_graph w graph_name host port s = (Inl e, s') \<and> files s' = files s"
  using assms by (simp add: export_graph_def export_nodes_def log_event_def)


section \<open>The order of the columns\<close>

lemma first_seen_idem: "first_seen (first_seen xs) = first_seen xs"
  by (simp add: first_seen_distinct distinct_first_seen)

lemma first_seen_concat_first_seen:
  "first_seen (concat (map first_seen xss)) = first_seen (concat xss)"
proof (induction xss)
  case Nil
  then show ?case by simp
next
  case (Cons xs xss)
  have "first_seen (concat (map first_seen (xs # xss))) =
      first_seen xs @ filter (\<lambda>y. y \<notin> set xs) (first_seen (concat (map first_seen xss)))"
    by (simp add: first_seen_append first_seen_idem set_first_seen)
  also have "\<dots> = first_seen (xs @ concat xss)"
    by (simp only: Cons.IH first_seen_append)
  finally show ?case by simp
qed

lemma filter_fixed_prefix:
  "filter (\<lambda>k. k \<notin> set F) (concat (map (\<lambda>r. F @ filter (\<lambda>k. k \<notin> set F) (first_seen (g r))) rs)) =
     concat (map first_seen (map (\<lambda>r. filter (\<lambda>k. k \<notin> set F) (g r)) rs))"
  by (induction rs) (simp_all add: filter_neq_first_seen)

lemma first_seen_fixed_prefix:
  assumes "distinct F" and "rs \<noteq> []"
  shows "first_seen (concat (map (\<lambda>r. F @ filter (\<lambda>k. k \<notin> set F) (first_seen (g r))) rs)) =
           F @ filter (\<lambda>k. k \<notin> set F) (first_seen (concat (map g rs)))"
proof -
  let ?P = "\<lambda>k. k \<notin> set F"
  let ?h = "\<lambda>r. F @ filter ?P (first_seen (g r))"
  from assms(2) obtain r rs' where rs: "rs = r # rs'" by (cases rs) auto
  define Y where "Y = filter ?P (first_seen (g r)) @ concat (map ?h rs')"
  have split: "concat (map ?h rs) = F @ Y"
    by (simp add: rs Y_def)
  have "filter ?P (concat (map ?h rs)) = filter ?P Y"
    by (simp only: split filter_append) simp
  then have fY: "filter ?P Y = concat (map first_seen (map (\<lambda>r. filter ?P (g r)) rs))"
    by (simp only: filter_fixed_prefix)
  have "first_seen (concat (map ?h rs)) = first_seen F @ filter ?P (first_seen Y)"
    by (simp only: split first_seen_append)
  also have "\<dots> = F @ first_seen (filter ?P Y)"
    using assms(1) by (simp only: first_seen_distinct filter_neq_first_seen)
  also have "\<dots> = F @ first_seen (concat (map (\<lambda>r. filter ?P (g r)) rs))"
    by (simp only: fY first_seen_concat_first_seen)
  also have "concat (map (\<lambda>r. filter ?P (g r)) rs) = filter ?P (concat (map g rs))"
    by (simp add: filter_concat comp_def)
  also have "first_seen (filter ?P (concat (map g rs))) = filter ?P (first_seen (concat (map g rs)))"
    by (simp only: filter_neq_first_seen)
  finally show ?thesis .
qed

lemma keys_flatten_node:
  "map fst (projr (flatten_node r)) =
     [''id'', ''label''] @ filter (\<lambda>k. k \<notin> set [''id'', ''label'']) (first_seen (node_prop_keys r))"
proof -
  obtain node_id labels p where r: "r = (node_id, labels, p)" by (cases r)
  have "map fst (case p of None \<Rightarrow> [] | Some d \<Rightarrow> d) = prop_keys p"
    by (cases p) (simp_all add: prop_keys_def)
  then show ?thesis
    by (simp add: r flatten_node_eq keys_dict_update_items)
qed

lemma keys_flatten_edge:
  "map fst (projr (flatten_edge r)) =
     [''id'', ''type'', ''from_id'', ''to_id'']
       @ filter (\<lambda>k. k \<notin> set [''id'', ''type'', ''from_id'', ''to_id'']) (first_seen (edge_prop_keys r))"
proof -
  obtain edge_id edge_type from_id to_id p where r: "r = (edge_id, edge_type, from_id, to_id, p)"
    by (cases r)
  have "map fst (case p of None \<Rightarrow> [] | Some d \<Rightarrow> d) = prop_keys p"
    by (cases p) (simp_all add: prop_keys_def)
  then show ?thesis
    by (simp add: r flatten_edge_eq keys_dict_update_items)
qed

lemma node_columns:
  assumes "ns \<noteq> []"
  shows "columns (DataFrame (map (\<lambda>r. projr (flatten_node r)) ns)) =
           [''id'', ''label''] @ filter (\<lambda>k. k \<notin> set [''id'', ''label''])
              (first_seen (concat (map node_prop_keys ns)))"
proof -
  have "distinct [''id'', ''label'']" by simp
  from first_seen_fixed_prefix [OF this assms, of node_prop_keys]
  show ?thesis
    by (simp only: columns_DataFrame map_map comp_def keys_flatten_node)
qed

lemma edge_columns:
  assumes "es \<noteq> []"
  shows "columns (DataFrame (map (\<lambda>r. projr (flatten_edge r)) es)) =
           [''id'', ''type'', ''from_id'', ''to_id'']
             @ filter (\<lambda>k. k \<notin> set [''id'', ''type'', ''from_id'', ''to_id''])
                 (first_seen (concat (map edge_prop_keys es)))"
proof -
  have "distinct [''id'', ''type'', ''from_id'', ''to_id'']" by simp
  from first_seen_fixed_prefix [OF this assms, of edge_prop_keys]
  show ?thesis
    by (simp only: columns_DataFrame map_map comp_def keys_flatten_edge)
qed

text \<open>
  Claim C10: after a run that meets no failure (the connection is established, both
  queries return, both destinations can be written and both messages can be
  printed), the header of \<^verbatim>\<open>nodes.csv\<close>, when there is a node, is \<^verbatim>\<open>id\<close>, \<^verbatim>\<open>label\<close> followed by the other property keys in the order
  of their first appearance over the rows; the header of \<^verbatim>\<open>edges.csv\<close>, when there is
  an edge, is \<^verbatim>\<open>id\<close>, \<^verbatim>\<open>type\<close>, \<^verbatim>\<open>from_id\<close>, \<^verbatim>\<open>to_id\<close> followed by the other
  property keys in the order of their first appearance.
\<close>

theorem fixed_columns_first:
  assumes "connect w host port = None"
    and "node_rows w host port graph_name = Inr ns"
    and "edge_rows w host port graph_name = Inr es"
    and "io_error w ''nodes.csv'' = None"
    and "io_error w ''edges.csv'' = None"
    and "print_error w nodes_message = None"
    and "print_error w edges_message = None"
  shows "\<exists>s' tn te. export_graph w graph_name host port s = (Inr (), s')
           \<and> files s' ''nodes.csv'' = Some tn \<and> files s' ''edges.csv'' = Some te
           \<and> (ns \<noteq> [] \<longrightarrow> columns tn =
                 [''id'', ''label''] @ filter (\<lambda>k. k \<notin> set [''id'', ''label''])
                    (first_seen (concat (map node_prop_keys ns))))
           \<and> (es \<noteq> [] \<longrightarrow> columns te =
                 [''id'', ''type'', ''from_id'', ''to_id'']
                   @ filter (\<lambda>k. k \<notin> set [''id'', ''type'', ''from_id'', ''to_id''])
                       (first_seen (concat (map edge_prop_keys es))))"
  using export_graph_ok [OF assms, of s] node_columns [of ns] edge_columns [of es] by auto

lemma field_flatten_node: "field (flatten_node r) = map_of (projr (flatten_node r))"
  using flatten_node_total [of r] by (auto simp: field_def fun_eq_iff)

lemma field_flatten_edge: "field (flatten_edge r) = map_of (projr (flatten_edge r))"
  using flatten_edge_total [of r] by (auto simp: field_def fun_eq_iff)

lemma set_columns_DataFrame: "set (columns (DataFrame ds)) = (\<Union>d\<in>set ds. dom (map_of d))"
  by (auto simp: columns_DataFrame set_first_seen dom_map_of_conv_image_fst)

text \<open>
  Claim C7: after a run that meets no failure (the connection is established, both
  queries return, both destinations can be written and both messages can be
  printed), the column set of each file is the union of the keys of the flattened records of its class, and the row of a record
  holds, column by column, the value the record has under that key, which is the
  missing cell \<open>None\<close> exactly when the record lacks the key; no error arises.
\<close>

theorem columns_are_key_union:
  assumes "connect w host port = None"
    and "node_rows w host port graph_name = Inr ns"
    and "edge_rows w host port graph_name = Inr es"
    and "io_error w ''nodes.csv'' = None"
    and "io_error w ''edges.csv'' = None"
    and "print_error w nodes_message = None"
    and "print_error w edges_message = None"
  shows "\<exists>s' tn te. export_graph w graph_name host port s = (Inr (), s')
           \<and> files s' ''nodes.csv'' = Some tn \<and> files s' ''edges.csv'' = Some te
           \<and> set (columns tn) = (\<Union>r\<in>set ns. dom (field (flatten_node r)))
           \<and> rows tn = map (\<lambda>r. map (field (flatten_node r)) (columns tn)) ns
           \<and> set (columns te) = (\<Union>r\<in>set es. dom (field (flatten_edge r)))
           \<and> rows te = map (\<lambda>r. map (field (flatten_edge r)) (columns te)) es"
  using export_graph_ok [OF assms, of s]
  by (auto simp: set_columns_DataFrame rows_DataFrame field_flatten_node field_flatten_edge comp_def)

section \<open>The scenario, run\<close>

lemma scenario_reachable: "connect scenario ''localhost'' 6379 = None"
  by (simp add: scenario_def)

lemma scenario_node_rows: "node_rows scenario ''localhost'' 6379 ''test_graph'' = Inr scenario_nodes"
  by (simp add: scenario_def)

lemma scenario_edge_rows: "edge_rows scenario ''localhost'' 6379 ''test_graph'' = Inr scenario_edges"
  by (simp add: scenario_def)



lemma scenario_writable: "io_error scenario path = None"
  by (simp add: scenario_def)

lemma scenario_prints: "print_error scenario message = None"
  by (simp add: scenario_def)

lemma scenario_sizes: "length scenario_nodes = 3 \<and> length scenario_edges = 2"
  by (simp add: scenario_nodes_def scenario_edges_def)

text \<open>
  On a standard output that encodes ASCII only, the first message, which starts with
  the check mark, cannot be printed: the run ends with \<^verbatim>\<open>UnicodeEncodeError\<close> after
  \<^verbatim>\<open>nodes.csv\<close> is written, and there is no \<^verbatim>\<open>edges.csv\<close>.
\<close>

lemma ascii_stdout_run:
  "\<exists>s' tn. export_graph ascii_stdout ''test_graph'' ''localhost'' 6379 start
              = (Inl UnicodeEncodeError, s')
          \<and> files s' ''nodes.csv'' = Some tn \<and> length (rows tn) = 3
          \<and> files s' ''edges.csv'' = None"
proof -
  have c: "connect ascii_stdout ''localhost'' 6379 = None"
    by (simp add: ascii_stdout_def scenario_def)
  have n: "node_rows ascii_stdout ''localhost'' 6379 ''test_graph'' = Inr scenario_nodes"
    by (simp add: ascii_stdout_def scenario_def)
  have i: "io_error ascii_stdout ''nodes.csv'' = None"
    by (simp add: ascii_stdout_def scenario_def)
  have p: "print_error ascii_stdout nodes_message = Some UnicodeEncodeError"
    by (simp add: ascii_stdout_def nodes_message_def check_mark_def)
  from print_error_after_nodes [OF c n i p, of start] scenario_sizes
  show ?thesis by (auto simp: length_rows_DataFrame start_def)
qed

theorem one_row_per_entity_witness:
  "connect scenario ''localhost'' 6379 = None
   \<and> node_rows scenario ''localhost'' 6379 ''test_graph'' = Inr scenario_nodes
   \<and> edge_rows scenario ''localhost'' 6379 ''test_graph'' = Inr scenario_edges
   \<and> io_error scenario ''nodes.csv'' = None
   \<and> io_error scenario ''edges.csv'' = None
   \<and> print_error scenario nodes_message = None
   \<and> print_error scenario edges_message = None
   \<and> (\<exists>s' tn te. export_graph scenario ''test_graph'' ''localhost'' 6379 start = (Inr (), s')
          \<and> files s' ''nodes.csv'' = Some tn \<and> length (rows tn) = 3
          \<and> files s' ''edges.csv'' = Some te \<and> length (rows te) = 2)"
  using one_row_per_entity
    [OF scenario_reachable scenario_node_rows scenario_edge_rows scenario_writable scenario_writable
        scenario_prints scenario_prints, of start]
    scenario_reachable scenario_node_rows scenario_edge_rows scenario_writable scenario_prints
    scenario_sizes
  by simp

theorem connection_error_before_any_write_witness:
  "connect scenario ''nonexistent_host'' 9999 = Some (ConnectionError ''unreachable'')
   \<and> (\<exists>s'. export_graph scenario ''test_graph'' ''nonexistent_host'' 9999 start
              = (Inl (ConnectionError ''unreachable''), s')
          \<and> files s' = Map.empty
          \<and> trace s' = [Connect ''nonexistent_host'' 9999])"
proof -
  have h: "connect scenario ''nonexistent_host'' 9999 = Some (ConnectionError ''unreachable'')"
    by (simp add: scenario_def)
  from connection_error_before_any_write [OF h, of "''test_graph''" start] h
  show ?thesis by (simp add: start_def)
qed



theorem fixed_columns_first_witness:
  "connect scenario ''localhost'' 6379 = None
   \<and> node_rows scenario ''localhost'' 6379 ''test_graph'' = Inr scenario_nodes
   \<and> edge_rows scenario ''localhost'' 6379 ''test_graph'' = Inr scenario_edges
   \<and> io_error scenario ''nodes.csv'' = None
   \<and> io_error scenario ''edges.csv'' = None
   \<and> print_error scenario nodes_message = None
   \<and> print_error scenario edges_message = None
   \<and> (\<exists>s' tn te. export_graph scenario ''test_graph'' ''localhost'' 6379 start = (Inr (), s')
          \<and> files s' ''nodes.csv'' = Some tn \<and> files s' ''edges.csv'' = Some te
          \<and> columns tn = [''id'', ''label'', ''name'', ''age'', ''founded'']
          \<and> columns te = [''id'', ''type'', ''from_id'', ''to_id'', ''since''])"
  using fixed_columns_first
    [OF scenario_reachable scenario_node_rows scenario_edge_rows scenario_writable scenario_writable
        scenario_prints scenario_prints, of start]
    scenario_reachable scenario_node_rows scenario_edge_rows scenario_writable scenario_prints
  by (simp add: scenario_nodes_def scenario_edges_def prop_keys_def)

theorem columns_are_key_union_witness:
  "connect scenario ''localhost'' 6379 = None
   \<and> node_rows scenario ''localhost'' 6379 ''test_graph'' = Inr scenario_nodes
   \<and> edge_rows scenario ''localhost'' 6379 ''test_graph'' = Inr scenario_edges
   \<and> io_error scenario ''nodes.csv'' = None
   \<and> io_error scenario ''edges.csv'' = None
   \<and> print_error scenario nodes_message = None
   \<and> print_error scenario edges_message = None
   \<and> (\<exists>s' tn te. export_graph scenario ''test_graph'' ''localhost'' 6379 start = (Inr (), s')
          \<and> files s' ''nodes.csv'' = Some tn \<and> files s' ''edges.csv'' = Some te
          \<and> set (columns tn) = {''id'', ''label'', ''name'', ''age'', ''founded''}
          \<and> rows tn = map (\<lambda>r. map (field (flatten_node r)) (columns tn)) scenario_nodes
          \<and> set (columns te) = {''id'', ''type'', ''from_id'', ''to_id'', ''since''}
          \<and> rows te = map (\<lambda>r. map (field (flatten_edge r)) (columns te)) scenario_edges)"
proof -
  have n: "(\<Union>r\<in>set scenario_nodes. dom (field (flatten_node r))) =
      {''id'', ''label'', ''name'', ''age'', ''founded''}"
    by (simp add: scenario_nodes_def field_flatten_node flatten_node_eq dom_map_of_conv_image_fst)
      (simp add: insert_commute)
  have e: "(\<Union>r\<in>set scenario_edges. dom (field (flatten_edge r))) =
      {''id'', ''type'', ''from_id'', ''to_id'', ''since''}"
    by (simp add: scenario_edges_def field_flatten_edge flatten_edge_eq dom_map_of_conv_image_fst)
  from columns_are_key_union
    [OF scenario_reachable scenario_node_rows scenario_edge_rows scenario_writable scenario_writable
        scenario_prints scenario_prints, of start]
    scenario_reachable scenario_node_rows scenario_edge_rows scenario_writable scenario_prints
  show ?thesis by (simp only: n e)
qed

end
